theory Spec2Isabelle
  imports Main
begin

section \<open>pack.h: a binary pack/unpack engine over a typed format\<close>

text \<open>
  The header declares a format as a list of element types (\<open>integral\<close>,
  \<open>fixed_string\<close>, \<open>varchar\<close>). \<open>format::pack\<close> concatenates the encodings
  of its arguments; \<open>format::unpack\<close> walks the buffer once, collecting one decoder
  (a pair of iterators) per element, and then decodes all of them.

  Conventions of the embedding:
  \<^item> a \<open>std::string\<close> is a \<open>string\<close>, one \<open>char\<close> per byte;
  \<^item> a \<open>std::string::const_iterator\<close> is the string it points into together with
    an offset of type \<open>int\<close> (iterator arithmetic may leave the string on either side);
  \<^item> the host is the one the header assumes (\<open>endian::native = little\<close>) with the
    LP64 sizes: \<open>size_t\<close> and \<open>ptrdiff_t\<close> have 64 bits, \<open>unsigned\<close> has 32;
  \<^item> a thrown \<open>pack::exception\<close> is \<open>Inl (exception msg)\<close>; an exception that
    leaves a \<open>noexcept\<close> function is \<open>Inl terminate\<close>; a read through iterators
    that do not delimit a range inside their string is \<open>Inl undefined_behaviour\<close>;
    a call the compiler rejects is \<open>Inl ill_formed\<close>.
\<close>

subsection \<open>Types\<close>

datatype endian = little | big

definition native :: endian where
  "native = little"

datatype error = exception string | terminate | undefined_behaviour | ill_formed

text \<open>\<open>raw_type\<close>: the integer type of an \<open>integral\<close>, known by its size in bytes
  and its signedness.\<close>

datatype raw_type = raw_type (sizeof: nat) (is_signed: bool)

text \<open>The element types of a format. The length of a \<open>fixed_string\<close> is a byte
  count (its \<open>padding\<close> parameter has one value, \<open>null\<close>, and is never read); the
  length encoder of a \<open>varchar\<close> is an \<open>integral\<close>, given by its two parameters (the
  default is \<open>integral<unsigned, endian::little>\<close>).\<close>

datatype element =
    integral raw_type endian
  | fixed_string nat
  | varchar raw_type endian

text \<open>Arguments of \<open>pack\<close> and results of \<open>unpack\<close>: integers and strings.\<close>

datatype val = IntV int | StrV string

text \<open>\<open>struct piece\<close>: two iterators; \<open>storage\<close> is the string they point into.\<close>

record piece =
  storage :: string
  begin_at :: int
  end_at :: int

datatype decoder = integral_decoder raw_type endian piece | stringer_decoder piece

subsection \<open>Integer conversions and object representation\<close>

text \<open>Conversion of an integer to \<open>raw_type\<close>: reduction modulo \<open>2 ^ (8 * sizeof)\<close>,
  read as two's complement for a signed type.\<close>

definition to_raw :: "raw_type \<Rightarrow> int \<Rightarrow> int" where
  "to_raw rt v =
     (let m = 2 ^ (8 * sizeof rt); u = v mod m
      in if is_signed rt \<and> m \<le> 2 * u then u - m else u)"

definition to_size_t :: "int \<Rightarrow> int" where
  "to_size_t v = to_raw (raw_type 8 False) v"

definition to_ptrdiff_t :: "int \<Rightarrow> int" where
  "to_ptrdiff_t v = to_raw (raw_type 8 True) v"

definition to_unsigned :: "int \<Rightarrow> int" where
  "to_unsigned v = to_raw (raw_type 4 False) v"

text \<open>The bytes of an integer object on the little-endian host, lowest first
  (\<open>reinterpret_cast<const char*>(&value)\<close>), and the value of an object made of
  given bytes (\<open>reinterpret_cast<char*>(&temp)\<close>).\<close>

fun le_bytes :: "nat \<Rightarrow> int \<Rightarrow> string" where
  "le_bytes 0 v = []"
| "le_bytes (Suc n) v = char_of v # le_bytes n (v div 256)"

fun le_value :: "string \<Rightarrow> int" where
  "le_value [] = 0"
| "le_value (c # cs) = of_char c + 256 * le_value cs"

definition object_bytes :: "raw_type \<Rightarrow> int \<Rightarrow> string" where
  "object_bytes rt v = le_bytes (sizeof rt) v"

definition object_value :: "raw_type \<Rightarrow> string \<Rightarrow> int" where
  "object_value rt bs = to_raw rt (le_value bs)"

text \<open>\<open>std::to_string\<close> of a non-negative \<open>int\<close>.\<close>

fun to_string :: "nat \<Rightarrow> string" where
  "to_string n =
     (if n < 10 then [char_of (48 + n)]
      else to_string (n div 10) @ [char_of (48 + n mod 10)])"

declare to_string.simps [simp del]

subsection \<open>byte_copy\<close>

text \<open>\<open>byte_copy<endian::big>\<close>: \<open>current\<close> starts at \<open>end\<close> and is decremented
  before each read, down to \<open>begin\<close>. The second argument is \<open>current - begin\<close>.\<close>

fun byte_copy_big :: "string \<Rightarrow> nat \<Rightarrow> string" where
  "byte_copy_big src 0 = []"
| "byte_copy_big src (Suc n) = src ! n # byte_copy_big src n"

text \<open>\<open>byte_copy<endian::native>\<close>: \<open>current\<close> runs from \<open>begin\<close> up to \<open>end\<close>.\<close>

fun byte_copy_native :: "string \<Rightarrow> string" where
  "byte_copy_native [] = []"
| "byte_copy_native (c # cs) = c # byte_copy_native cs"

fun byte_copy :: "endian \<Rightarrow> string \<Rightarrow> string" where
  "byte_copy big src = byte_copy_big src (length src)"
| "byte_copy little src = byte_copy_native src"

subsection \<open>Decoders\<close>

text \<open>The bytes between the two iterators of a piece. Reading is defined only for a
  range that lies inside the string.\<close>

definition piece_bytes :: "piece \<Rightarrow> error + string" where
  "piece_bytes p =
     (if 0 \<le> begin_at p \<and> begin_at p \<le> end_at p \<and> end_at p \<le> int (length (storage p))
      then Inr (take (nat (end_at p - begin_at p)) (drop (nat (begin_at p)) (storage p)))
      else Inl undefined_behaviour)"

text \<open>\<open>integral::decoder::decode\<close> copies the piece over a zeroed \<open>raw_type\<close>
  and returns its value; \<open>stringer::decoder::decode\<close> builds a string from the piece.\<close>

definition integral_decode :: "raw_type \<Rightarrow> endian \<Rightarrow> piece \<Rightarrow> error + int" where
  "integral_decode rt order p =
     (case piece_bytes p of
        Inl e \<Rightarrow> Inl e
      | Inr bs \<Rightarrow> Inr (object_value rt (byte_copy order bs)))"

definition stringer_decode :: "piece \<Rightarrow> error + string" where
  "stringer_decode p = piece_bytes p"

fun decode :: "decoder \<Rightarrow> error + val" where
  "decode (integral_decoder rt order p) =
     (case integral_decode rt order p of Inl e \<Rightarrow> Inl e | Inr v \<Rightarrow> Inr (IntV v))"
| "decode (stringer_decoder p) =
     (case stringer_decode p of Inl e \<Rightarrow> Inl e | Inr s \<Rightarrow> Inr (StrV s))"

fun decode_all :: "decoder list \<Rightarrow> error + val list" where
  "decode_all [] = Inr []"
| "decode_all (d # ds) =
     (case decode d of
        Inl e \<Rightarrow> Inl e
      | Inr v \<Rightarrow> (case decode_all ds of Inl e \<Rightarrow> Inl e | Inr vs \<Rightarrow> Inr (v # vs)))"

subsection \<open>pack\<close>

text \<open>\<open>integral::chain::pack\<close> takes its first argument as a \<open>raw_type\<close> and
  copies the object's bytes in the chosen order.\<close>

definition integral_pack :: "raw_type \<Rightarrow> endian \<Rightarrow> int \<Rightarrow> string" where
  "integral_pack rt order v = byte_copy order (object_bytes rt (to_raw rt v))"

text \<open>\<open>integral::chain::pack\<close> is \<open>noexcept\<close>: an exception of a follower that
  passes through it ends the program.\<close>

fun noexcept :: "error \<Rightarrow> error" where
  "noexcept (exception msg) = terminate"
| "noexcept e = e"

text \<open>Which calls of \<open>pack\<close> compile: one argument of the right kind for every
  element; \<open>follow_up<finalizer>::pack\<close> accepts whatever arguments are left.\<close>

fun well_typed :: "element list \<Rightarrow> val list \<Rightarrow> bool" where
  "well_typed [] arguments = True"
| "well_typed (integral rt order # followers) (IntV v # arguments) =
     well_typed followers arguments"
| "well_typed (fixed_string n # followers) (StrV s # arguments) =
     well_typed followers arguments"
| "well_typed (varchar rt order # followers) (StrV s # arguments) =
     well_typed followers arguments"
| "well_typed elements arguments = False"

text \<open>\<open>follow_up<head_type, tail_types...>::pack\<close>, that is the \<open>chain::pack\<close> of
  the head type; the empty list is \<open>follow_up<finalizer>\<close>. In \<open>varchar\<close>,
  \<open>follow_up<length_encoder>::pack(value.size())\<close> is the \<open>chain<finalizer>::pack\<close>
  of the length encoder: its bytes followed by the empty string.\<close>

fun follow_up_pack :: "element list \<Rightarrow> val list \<Rightarrow> error + string" where
  "follow_up_pack [] arguments = Inr []"
| "follow_up_pack (integral rt order # followers) (IntV v # arguments) =
     (case follow_up_pack followers arguments of
        Inl e \<Rightarrow> Inl (noexcept e)
      | Inr rest \<Rightarrow> Inr (integral_pack rt order v @ rest))"
| "follow_up_pack (fixed_string n # followers) (StrV s # arguments) =
     (if length s \<noteq> n
      then Inl (exception (''Packed string should be of length '' @ to_string n))
      else (case follow_up_pack followers arguments of
              Inl e \<Rightarrow> Inl e
            | Inr rest \<Rightarrow> Inr (s @ rest)))"
| "follow_up_pack (varchar rt order # followers) (StrV s # arguments) =
     (case follow_up_pack followers arguments of
        Inl e \<Rightarrow> Inl e
      | Inr rest \<Rightarrow> Inr (integral_pack rt order (int (length s)) @ s @ rest))"
| "follow_up_pack elements arguments = Inl ill_formed"

text \<open>\<open>format::pack\<close>. A format without elements does not instantiate
  (\<open>follow_up<>\<close> has no head type).\<close>

definition pack :: "element list \<Rightarrow> val list \<Rightarrow> error + string" where
  "pack elements arguments =
     (if elements \<noteq> [] \<and> well_typed elements arguments
      then follow_up_pack elements arguments
      else Inl ill_formed)"

subsection \<open>unpack\<close>

text \<open>Each \<open>unpack\<close> takes the buffer and the offset of \<open>current\<close> in it
  (\<open>end\<close> is the end of the buffer) and returns the piece of its decoder with the
  new offset of \<open>current\<close>.\<close>

text \<open>\<open>integral::unpack\<close>: \<open>null\<close> is the static string of \<open>sizeof(raw_type)\<close>
  zero bytes and \<open>null_decoder\<close> the decoder over all of it. The byte order plays
  no part before \<open>decode\<close>.\<close>

definition null :: "raw_type \<Rightarrow> string" where
  "null rt = replicate (sizeof rt) (CHR 0x00)"

definition null_decoder :: "raw_type \<Rightarrow> piece" where
  "null_decoder rt = \<lparr>storage = null rt, begin_at = 0, end_at = int (length (null rt))\<rparr>"

definition integral_unpack :: "raw_type \<Rightarrow> string \<Rightarrow> int \<Rightarrow> piece \<times> int" where
  "integral_unpack rt packed current =
     (if current + int (sizeof rt) \<le> int (length packed)
      then (\<lparr>storage = packed, begin_at = current, end_at = current + int (sizeof rt)\<rparr>,
            current + int (sizeof rt))
      else (null_decoder rt, current))"

definition fixed_string_unpack :: "nat \<Rightarrow> string \<Rightarrow> int \<Rightarrow> error + piece \<times> int" where
  "fixed_string_unpack n packed current =
     (if current + int n \<le> int (length packed)
      then Inr (\<lparr>storage = packed, begin_at = current, end_at = current + int n\<rparr>,
                current + int n)
      else Inl (exception ''Not enough data left in buffer to unpack fixed_string''))"

text \<open>\<open>varchar::unpack\<close>: the length is decoded at once, as a \<open>size_t\<close>; the
  test compares \<open>unsigned(end - current)\<close> with it; \<open>current\<close> is advanced by the
  length and the decoder ends at \<open>current + length\<close>, taken after the advance.\<close>

definition varchar_unpack :: "raw_type \<Rightarrow> endian \<Rightarrow> string \<Rightarrow> int \<Rightarrow> error + piece \<times> int" where
  "varchar_unpack rt order packed current0 =
     (case integral_unpack rt packed current0 of (prefix, current1) \<Rightarrow>
        (case integral_decode rt order prefix of
           Inl e \<Rightarrow> Inl e
         | Inr v \<Rightarrow>
             (let len = to_size_t v
              in if to_unsigned (int (length packed) - current1) \<le> len
                 then (let begin = current1;
                           current2 = current1 + to_ptrdiff_t len
                       in Inr (\<lparr>storage = packed, begin_at = begin,
                                 end_at = current2 + to_ptrdiff_t len\<rparr>,
                               current2))
                 else Inl (exception ''Not enough data left in unpack of varchar''))))"

text \<open>The \<open>unpack\<close> of an element type, with the decoder type it returns.\<close>

fun element_unpack :: "element \<Rightarrow> string \<Rightarrow> int \<Rightarrow> error + decoder \<times> int" where
  "element_unpack (integral rt order) packed current =
     (case integral_unpack rt packed current of
        (p, current') \<Rightarrow> Inr (integral_decoder rt order p, current'))"
| "element_unpack (fixed_string n) packed current =
     (case fixed_string_unpack n packed current of
        Inl e \<Rightarrow> Inl e
      | Inr (p, current') \<Rightarrow> Inr (stringer_decoder p, current'))"
| "element_unpack (varchar rt order) packed current =
     (case varchar_unpack rt order packed current of
        Inl e \<Rightarrow> Inl e
      | Inr (p, current') \<Rightarrow> Inr (stringer_decoder p, current'))"

text \<open>\<open>follow_up::unpack\<close>: the head type's \<open>unpack\<close> advances \<open>current\<close>, then the
  tail goes on from there; the decoders are concatenated in order. The specialisation for
  a single element returns the head's decoder alone: the equation for an empty tail.\<close>

fun follow_up_unpack :: "element list \<Rightarrow> string \<Rightarrow> int \<Rightarrow> error + decoder list" where
  "follow_up_unpack [] packed current = Inr []"
| "follow_up_unpack (head_type # tail_types) packed current =
     (case element_unpack head_type packed current of
        Inl e \<Rightarrow> Inl e
      | Inr (ret, current') \<Rightarrow>
          (case follow_up_unpack tail_types packed current' of
             Inl e \<Rightarrow> Inl e
           | Inr plan \<Rightarrow> Inr (ret # plan)))"

text \<open>\<open>format::unpack\<close>: build the plan from the start of the buffer, then decode
  all of it.\<close>

definition unpack :: "element list \<Rightarrow> string \<Rightarrow> error + val list" where
  "unpack elements packed =
     (if elements = [] then Inl ill_formed
      else (case follow_up_unpack elements packed 0 of
              Inl e \<Rightarrow> Inl e
            | Inr plan \<Rightarrow> decode_all plan))"

subsection \<open>Predicates for the statements\<close>

text \<open>A format without \<open>varchar\<close> elements.\<close>

fun no_varchar :: "element list \<Rightarrow> bool" where
  "no_varchar [] = True"
| "no_varchar (integral rt order # elements) = no_varchar elements"
| "no_varchar (fixed_string n # elements) = no_varchar elements"
| "no_varchar (varchar rt order # elements) = False"

text \<open>An argument list that a format can carry without loss: an integer that is a value
  of its \<open>raw_type\<close>, a string of the declared size for a \<open>fixed_string\<close>, a string
  whose size is a value of the length encoder's \<open>raw_type\<close> for a \<open>varchar\<close>.\<close>

fun fits :: "element list \<Rightarrow> val list \<Rightarrow> bool" where
  "fits [] [] = True"
| "fits (integral rt order # elements) (IntV v # arguments) =
     (to_raw rt v = v \<and> fits elements arguments)"
| "fits (fixed_string n # elements) (StrV s # arguments) =
     (length s = n \<and> fits elements arguments)"
| "fits (varchar rt order # elements) (StrV s # arguments) =
     (to_raw rt (int (length s)) = int (length s) \<and> fits elements arguments)"
| "fits elements arguments = False"

text \<open>The number of bytes of the fixed-size parts of a format.\<close>

fun width :: "element list \<Rightarrow> nat" where
  "width [] = 0"
| "width (integral rt order # elements) = sizeof rt + width elements"
| "width (fixed_string n # elements) = n + width elements"
| "width (varchar rt order # elements) = sizeof rt + width elements"

section \<open>Properties\<close>

subsection \<open>Facts about the byte-order copier and the object representation\<close>

lemma byte_copy_big_take: "n \<le> length src \<Longrightarrow> byte_copy_big src n = rev (take n src)"
  by (induction n) (simp_all add: take_Suc_conv_app_nth)

lemma byte_copy_native_id: "byte_copy_native src = src"
  by (induction src) simp_all

lemma byte_copy_eq: "byte_copy order src = (case order of little \<Rightarrow> src | big \<Rightarrow> rev src)"
  by (cases order) (simp_all add: byte_copy_big_take byte_copy_native_id)

lemma byte_copy_twice: "byte_copy order (byte_copy order src) = src"
  by (cases order) (simp_all add: byte_copy_eq)

lemma length_byte_copy: "length (byte_copy order src) = length src"
  by (cases order) (simp_all add: byte_copy_eq)

lemma length_le_bytes: "length (le_bytes n v) = n"
  by (induction n arbitrary: v) simp_all

lemma low_byte_split: "(v::int) mod (256 * 2 ^ k) = 256 * (v div 256 mod 2 ^ k) + v mod 256"
  by (rule zmod_zmult2_eq) simp

lemma le_value_le_bytes: "le_value (le_bytes n v) = v mod 2 ^ (8 * n)"
proof (induction n arbitrary: v)
  case 0
  show ?case by simp
next
  case (Suc n)
  have "le_value (le_bytes (Suc n) v) = v mod 256 + 256 * ((v div 256) mod 2 ^ (8 * n))"
    by (simp add: Suc.IH)
  also have "\<dots> = v mod (256 * 2 ^ (8 * n))"
    by (simp add: low_byte_split)
  also have "(256::int) * 2 ^ (8 * n) = 2 ^ (8 * Suc n)"
    by (simp add: power_add)
  finally show ?case .
qed

lemma le_bytes_mod: "le_bytes n (v mod 2 ^ (8 * n)) = le_bytes n v"
proof (induction n arbitrary: v)
  case 0
  show ?case by simp
next
  case (Suc n)
  have pow: "(2::int) ^ (8 * Suc n) = 256 * 2 ^ (8 * n)"
    by (simp add: power_add)
  have hd: "char_of (v mod (256 * 2 ^ (8 * n))) = char_of v"
    by (simp add: low_byte_split)
  have "(v mod (256 * 2 ^ (8 * n))) div 256 = (256 * (v div 256 mod 2 ^ (8 * n)) + v mod 256) div 256"
    by (simp only: low_byte_split)
  also have "\<dots> = v div 256 mod 2 ^ (8 * n)"
    by simp
  finally have tl: "(v mod (256 * 2 ^ (8 * n))) div 256 = v div 256 mod 2 ^ (8 * n)" .
  show ?case
    unfolding pow by (simp only: le_bytes.simps hd tl Suc.IH)
qed

lemma le_value_replicate_zero: "le_value (replicate n (CHR 0x00)) = 0"
  by (induction n) simp_all

lemma to_raw_mod: "to_raw rt v mod 2 ^ (8 * sizeof rt) = v mod 2 ^ (8 * sizeof rt)"
  by (simp add: to_raw_def Let_def)

lemma to_raw_cong: "to_raw rt (v mod 2 ^ (8 * sizeof rt)) = to_raw rt v"
  by (simp add: to_raw_def Let_def)

lemma to_raw_zero: "to_raw rt 0 = 0"
  by (simp add: to_raw_def Let_def)

lemma to_raw_unsigned: "to_raw (raw_type n False) v = v mod 2 ^ (8 * n)"
  by (simp add: to_raw_def Let_def)

lemma object_bytes_to_raw: "object_bytes rt (to_raw rt v) = object_bytes rt v"
  unfolding object_bytes_def
  by (metis le_bytes_mod to_raw_mod)

lemma object_value_bytes: "object_value rt (object_bytes rt v) = to_raw rt v"
  by (simp add: object_value_def object_bytes_def le_value_le_bytes to_raw_cong)

lemma length_integral_pack: "length (integral_pack rt order v) = sizeof rt"
  by (simp add: integral_pack_def length_byte_copy object_bytes_def length_le_bytes)

lemma piece_bytes_whole:
  "piece_bytes \<lparr>storage = s, begin_at = 0, end_at = int (length s)\<rparr> = Inr s"
  by (simp add: piece_bytes_def)

lemma integral_decode_null: "integral_decode rt order (null_decoder rt) = Inr 0"
  by (cases order)
     (simp_all add: integral_decode_def null_decoder_def piece_bytes_def null_def
        byte_copy_eq object_value_def le_value_replicate_zero to_raw_zero)

lemma integral_decode_pack:
  "integral_decode rt order
     \<lparr>storage = integral_pack rt order v, begin_at = 0,
      end_at = int (length (integral_pack rt order v))\<rparr> = Inr (to_raw rt v)"
  by (simp add: integral_decode_def piece_bytes_whole integral_pack_def byte_copy_twice
        object_bytes_to_raw object_value_bytes)

lemma to_size_t_zero: "to_size_t 0 = 0"
  by (simp add: to_size_t_def to_raw_zero)

lemma to_ptrdiff_t_zero: "to_ptrdiff_t 0 = 0"
  by (simp add: to_ptrdiff_t_def to_raw_zero)

lemma to_unsigned_zero: "to_unsigned 0 = 0"
  by (simp add: to_unsigned_def to_raw_zero)

lemma integral_unpack_at_end:
  "\<exists>p. integral_unpack rt packed (int (length packed)) = (p, int (length packed)) \<and>
       integral_decode rt order p = Inr 0"
proof (cases "sizeof rt = 0")
  case True
  then have "integral_unpack rt packed (int (length packed)) =
      (\<lparr>storage = packed, begin_at = int (length packed), end_at = int (length packed)\<rparr>,
       int (length packed))"
    by (simp add: integral_unpack_def)
  moreover have "integral_decode rt order
      \<lparr>storage = packed, begin_at = int (length packed), end_at = int (length packed)\<rparr> = Inr 0"
    by (simp add: integral_decode_def piece_bytes_def byte_copy_eq object_value_def to_raw_zero
          split: endian.split)
  ultimately show ?thesis by simp
next
  case False
  then have "integral_unpack rt packed (int (length packed)) = (null_decoder rt, int (length packed))"
    by (simp add: integral_unpack_def)
  then show ?thesis
    by (simp add: integral_decode_null)
qed

subsection \<open>Formats without varchar\<close>

text \<open>For a format of \<open>integral\<close> and \<open>fixed_string\<close> elements, unpacking what
  \<open>pack\<close> returned gives the arguments back, whatever bytes follow in the buffer.\<close>

lemma piece_bytes_middle:
  "piece_bytes \<lparr>storage = pre @ e @ post, begin_at = int (length pre),
     end_at = int (length pre) + int (length e)\<rparr> = Inr e"
  by (simp add: piece_bytes_def)

lemma fits_well_typed: "fits elements arguments \<Longrightarrow> well_typed elements arguments"
  by (induction elements arguments rule: fits.induct) simp_all

lemma follow_up_roundtrip:
  "no_varchar elements \<Longrightarrow> fits elements arguments \<Longrightarrow>
   \<exists>b. follow_up_pack elements arguments = Inr b \<and>
       (\<forall>pre post. \<exists>plan.
          follow_up_unpack elements (pre @ b @ post) (int (length pre)) = Inr plan \<and>
          decode_all plan = Inr arguments)"
proof (induction elements arguments rule: fits.induct)
  case 1
  show ?case by simp
next
  case (2 rt order elements v arguments)
  then obtain b where b: "follow_up_pack elements arguments = Inr b"
    and rest: "\<And>pre post. \<exists>plan.
          follow_up_unpack elements (pre @ b @ post) (int (length pre)) = Inr plan \<and>
          decode_all plan = Inr arguments"
    by auto
  define e where "e = integral_pack rt order v"
  have len: "length e = sizeof rt"
    by (simp add: e_def length_integral_pack)
  have val: "object_value rt (byte_copy order e) = v"
    using "2.prems"(2)
    by (simp add: e_def integral_pack_def byte_copy_twice object_bytes_to_raw object_value_bytes)
  have packed: "follow_up_pack (integral rt order # elements) (IntV v # arguments) = Inr (e @ b)"
    by (simp add: b e_def)
  have "\<exists>plan. follow_up_unpack (integral rt order # elements) (pre @ (e @ b) @ post)
            (int (length pre)) = Inr plan \<and> decode_all plan = Inr (IntV v # arguments)"
    for pre post
  proof -
    obtain plan where plan:
      "follow_up_unpack elements ((pre @ e) @ b @ post) (int (length (pre @ e))) = Inr plan"
      "decode_all plan = Inr arguments"
      using rest [of "pre @ e" post] by blast
    have head: "integral_unpack rt (pre @ e @ b @ post) (int (length pre)) =
        (\<lparr>storage = pre @ e @ (b @ post), begin_at = int (length pre),
           end_at = int (length pre) + int (length e)\<rparr>, int (length pre) + int (length e))"
      by (simp add: integral_unpack_def len)
    have dec: "integral_decode rt order
         \<lparr>storage = pre @ e @ (b @ post), begin_at = int (length pre),
           end_at = int (length pre) + int (length e)\<rparr> = Inr v"
      by (simp only: integral_decode_def piece_bytes_middle sum.case val)
    show ?thesis
      using plan by (simp add: head dec)
  qed
  with packed show ?case by blast
next
  case (3 n elements s arguments)
  then obtain b where b: "follow_up_pack elements arguments = Inr b"
    and rest: "\<And>pre post. \<exists>plan.
          follow_up_unpack elements (pre @ b @ post) (int (length pre)) = Inr plan \<and>
          decode_all plan = Inr arguments"
    by auto
  have len: "length s = n"
    using "3.prems"(2) by simp
  have packed: "follow_up_pack (fixed_string n # elements) (StrV s # arguments) = Inr (s @ b)"
    by (simp add: b len)
  have "\<exists>plan. follow_up_unpack (fixed_string n # elements) (pre @ (s @ b) @ post)
            (int (length pre)) = Inr plan \<and> decode_all plan = Inr (StrV s # arguments)"
    for pre post
  proof -
    obtain plan where plan:
      "follow_up_unpack elements ((pre @ s) @ b @ post) (int (length (pre @ s))) = Inr plan"
      "decode_all plan = Inr arguments"
      using rest [of "pre @ s" post] by blast
    have head: "fixed_string_unpack n (pre @ s @ b @ post) (int (length pre)) =
        Inr (\<lparr>storage = pre @ s @ (b @ post), begin_at = int (length pre),
           end_at = int (length pre) + int (length s)\<rparr>, int (length pre) + int (length s))"
      by (simp add: fixed_string_unpack_def len)
    have dec: "stringer_decode
         \<lparr>storage = pre @ s @ (b @ post), begin_at = int (length pre),
           end_at = int (length pre) + int (length s)\<rparr> = Inr s"
      by (simp only: stringer_decode_def piece_bytes_middle)
    show ?thesis
      using plan by (simp add: head dec)
  qed
  with packed show ?case by blast
qed simp_all

lemma roundtrip_without_varchar:
  assumes "elements \<noteq> []" "no_varchar elements" "fits elements arguments"
  shows "\<exists>packed. pack elements arguments = Inr packed \<and>
           (\<forall>trailing. unpack elements (packed @ trailing) = Inr arguments)"
proof -
  obtain b where b: "follow_up_pack elements arguments = Inr b"
    and rest: "\<And>pre post. \<exists>plan.
          follow_up_unpack elements (pre @ b @ post) (int (length pre)) = Inr plan \<and>
          decode_all plan = Inr arguments"
    using follow_up_roundtrip [OF assms(2,3)] by blast
  have "pack elements arguments = Inr b"
    using assms(1,3) by (simp add: pack_def b fits_well_typed)
  moreover have "unpack elements (b @ trailing) = Inr arguments" for trailing
    using rest [of "[]" trailing] assms(1) by (auto simp: unpack_def)
  ultimately show ?thesis by blast
qed

text \<open>For such a format, a buffer at least as long as the format's width is unpacked
  without error, and bytes appended to it do not change the result.\<close>

lemma piece_bytes_append:
  "0 \<le> b \<Longrightarrow> e \<le> int (length packed) \<Longrightarrow>
   piece_bytes \<lparr>storage = packed @ trailing, begin_at = b, end_at = e\<rparr> =
   piece_bytes \<lparr>storage = packed, begin_at = b, end_at = e\<rparr>"
  by (simp add: piece_bytes_def)

lemma piece_bytes_inside:
  "0 \<le> b \<Longrightarrow> b \<le> e \<Longrightarrow> e \<le> int (length packed) \<Longrightarrow>
   \<exists>bs. piece_bytes \<lparr>storage = packed, begin_at = b, end_at = e\<rparr> = Inr bs"
  by (simp add: piece_bytes_def)

lemma follow_up_unpack_trailing:
  "no_varchar elements \<Longrightarrow> 0 \<le> current \<Longrightarrow>
   current + int (width elements) \<le> int (length packed) \<Longrightarrow>
   \<exists>plan plan' vs.
     follow_up_unpack elements packed current = Inr plan \<and>
     follow_up_unpack elements (packed @ trailing) current = Inr plan' \<and>
     decode_all plan = Inr vs \<and> decode_all plan' = Inr vs"
proof (induction elements arbitrary: current rule: no_varchar.induct)
  case 1
  show ?case by simp
next
  case (2 rt order elements)
  let ?next = "current + int (sizeof rt)"
  have inside: "0 \<le> current" "current \<le> ?next" "?next \<le> int (length packed)"
    using "2.prems" by simp_all
  obtain plan plan' vs where tail:
    "follow_up_unpack elements packed ?next = Inr plan"
    "follow_up_unpack elements (packed @ trailing) ?next = Inr plan'"
    "decode_all plan = Inr vs" "decode_all plan' = Inr vs"
    using "2.IH" [of ?next] "2.prems" by (auto simp: add.assoc)
  obtain bs where bs:
    "piece_bytes \<lparr>storage = packed, begin_at = current, end_at = ?next\<rparr> = Inr bs"
    using piece_bytes_inside [OF inside] by blast
  then have bs': "piece_bytes \<lparr>storage = packed @ trailing, begin_at = current, end_at = ?next\<rparr> = Inr bs"
    using piece_bytes_append inside by simp
  show ?case
    using inside tail by (simp add: integral_unpack_def integral_decode_def bs bs')
next
  case (3 n elements)
  let ?next = "current + int n"
  have inside: "0 \<le> current" "current \<le> ?next" "?next \<le> int (length packed)"
    using "3.prems" by simp_all
  obtain plan plan' vs where tail:
    "follow_up_unpack elements packed ?next = Inr plan"
    "follow_up_unpack elements (packed @ trailing) ?next = Inr plan'"
    "decode_all plan = Inr vs" "decode_all plan' = Inr vs"
    using "3.IH" [of ?next] "3.prems" by (auto simp: add.assoc)
  obtain bs where bs:
    "piece_bytes \<lparr>storage = packed, begin_at = current, end_at = ?next\<rparr> = Inr bs"
    using piece_bytes_inside [OF inside] by blast
  then have bs': "piece_bytes \<lparr>storage = packed @ trailing, begin_at = current, end_at = ?next\<rparr> = Inr bs"
    using piece_bytes_append inside by simp
  show ?case
    using inside tail by (simp add: fixed_string_unpack_def stringer_decode_def bs bs')
next
  case (4 rt order elements)
  then show ?case by simp
qed

lemma trailing_ignored_without_varchar:
  assumes "elements \<noteq> []" "no_varchar elements" "width elements \<le> length packed"
  shows "\<exists>vs. unpack elements packed = Inr vs \<and> unpack elements (packed @ trailing) = Inr vs"
proof -
  have "0 + int (width elements) \<le> int (length packed)"
    using assms(3) by simp
  from follow_up_unpack_trailing [OF assms(2) order_refl this, of trailing]
  show ?thesis
    using assms(1) by (auto simp: unpack_def)
qed

subsection \<open>The test of varchar::unpack\<close>

text \<open>With the default length encoder, a buffer shorter than \<open>2 ^ 32\<close> bytes and the
  prefix inside the buffer, \<open>varchar::unpack\<close> accepts exactly when the number of bytes
  left after the prefix is at most the decoded length, and the decoder it returns is twice
  as long as that length.\<close>

lemma to_size_t_small: "0 \<le> v \<Longrightarrow> v < 2 ^ 32 \<Longrightarrow> to_size_t v = v"
  by (simp add: to_size_t_def to_raw_def)

lemma to_ptrdiff_t_small: "0 \<le> v \<Longrightarrow> v < 2 ^ 32 \<Longrightarrow> to_ptrdiff_t v = v"
  by (simp add: to_ptrdiff_t_def to_raw_def)

lemma to_unsigned_small: "0 \<le> v \<Longrightarrow> v < 2 ^ 32 \<Longrightarrow> to_unsigned v = v"
  by (simp add: to_unsigned_def to_raw_def)

lemma varchar_unpack_default:
  assumes "0 \<le> current" "current + 4 \<le> int (length packed)" "int (length packed) < 2 ^ 32"
  shows "\<exists>len. 
     integral_decode (raw_type 4 False) order
       \<lparr>storage = packed, begin_at = current, end_at = current + 4\<rparr> = Inr len \<and>
     0 \<le> len \<and> len < 2 ^ 32 \<and>
     varchar_unpack (raw_type 4 False) order packed current =
       (if int (length packed) - (current + 4) \<le> len
        then Inr (\<lparr>storage = packed, begin_at = current + 4,
                   end_at = current + 4 + 2 * len\<rparr>, current + 4 + len)
        else Inl (exception ''Not enough data left in unpack of varchar''))"
proof -
  have head: "integral_unpack (raw_type 4 False) packed current =
      (\<lparr>storage = packed, begin_at = current, end_at = current + 4\<rparr>, current + 4)"
    using assms by (simp add: integral_unpack_def)
  obtain bs where bs:
    "piece_bytes \<lparr>storage = packed, begin_at = current, end_at = current + 4\<rparr> = Inr bs"
    using piece_bytes_inside [of current "current + 4" packed] assms by auto
  define len where "len = object_value (raw_type 4 False) (byte_copy order bs)"
  have dec: "integral_decode (raw_type 4 False) order
       \<lparr>storage = packed, begin_at = current, end_at = current + 4\<rparr> = Inr len"
    by (simp add: integral_decode_def bs len_def)
  have range: "0 \<le> len" "len < 2 ^ 32"
    by (simp_all add: len_def object_value_def to_raw_unsigned)
  have left: "0 \<le> int (length packed) - (current + 4)" "int (length packed) - (current + 4) < 2 ^ 32"
    using assms by simp_all
  have "varchar_unpack (raw_type 4 False) order packed current =
       (if int (length packed) - (current + 4) \<le> len
        then Inr (\<lparr>storage = packed, begin_at = current + 4,
                   end_at = current + 4 + 2 * len\<rparr>, current + 4 + len)
        else Inl (exception ''Not enough data left in unpack of varchar''))"
    by (simp add: varchar_unpack_def head dec Let_def to_size_t_small [OF range]
          to_ptrdiff_t_small [OF range] to_unsigned_small [OF left])
  with dec range show ?thesis by blast
qed

subsection \<open>The claims\<close>

text \<open>
  C1 (round trip). The claim: for every format and every argument list that respects the
  format, \<open>unpack (pack V) = V\<close>, variable-length strings included. The code does not
  do this once a \<open>varchar\<close> is involved. For the format
  \<open>varchar<>, integral<unsigned>\<close> and the arguments \<open>("", 1)\<close>, \<open>pack\<close> returns
  eight bytes and \<open>unpack\<close> of these bytes throws, because four bytes remain after the
  length prefix and \<open>4 <= 0\<close> is false. For the format \<open>varchar<>\<close> and the
  argument \<open>"abc"\<close>, the decoder that \<open>unpack\<close> builds over the seven packed bytes
  runs from offset 4 to offset 10, past the end of the buffer, so decoding it reads
  outside the buffer.
\<close>

theorem roundtrip_varchar_fails:
  "pack [varchar (raw_type 4 False) little, integral (raw_type 4 False) little]
     [StrV [], IntV 1] =
     Inr [CHR 0x00, CHR 0x00, CHR 0x00, CHR 0x00, CHR 0x01, CHR 0x00, CHR 0x00, CHR 0x00] \<and>
   unpack [varchar (raw_type 4 False) little, integral (raw_type 4 False) little]
     [CHR 0x00, CHR 0x00, CHR 0x00, CHR 0x00, CHR 0x01, CHR 0x00, CHR 0x00, CHR 0x00] =
     Inl (exception ''Not enough data left in unpack of varchar'') \<and>
   pack [varchar (raw_type 4 False) little] [StrV ''abc''] =
     Inr [CHR 0x03, CHR 0x00, CHR 0x00, CHR 0x00, CHR ''a'', CHR ''b'', CHR ''c''] \<and>
   follow_up_unpack [varchar (raw_type 4 False) little]
     [CHR 0x03, CHR 0x00, CHR 0x00, CHR 0x00, CHR ''a'', CHR ''b'', CHR ''c''] 0 =
     Inr [stringer_decoder
            \<lparr>storage = [CHR 0x03, CHR 0x00, CHR 0x00, CHR 0x00, CHR ''a'', CHR ''b'', CHR ''c''],
             begin_at = 4, end_at = 10\<rparr>] \<and>
   unpack [varchar (raw_type 4 False) little]
     [CHR 0x03, CHR 0x00, CHR 0x00, CHR 0x00, CHR ''a'', CHR ''b'', CHR ''c''] =
     Inl undefined_behaviour"
  by code_simp

text \<open>
  C2 (bounds test of \<open>varchar::unpack\<close>). The claim: the field is accepted whenever the
  decoded length is at most the number of bytes left after the prefix, with a view of
  exactly that many bytes, and rejected exactly when the length is larger. The code
  tests \<open>unsigned(end - current) <= length\<close>, the other way round. With the default
  length encoder, the buffer \<open>00 00 00 00 41\<close> (length 0, one byte left) is rejected,
  and the buffer \<open>05 00 00 00 41\<close> (length 5, one byte left) is accepted, with a view
  from offset 4 to offset 14 and \<open>current\<close> moved to offset 9.
\<close>

theorem varchar_unpack_test_inverted:
  "varchar_unpack (raw_type 4 False) little
     [CHR 0x00, CHR 0x00, CHR 0x00, CHR 0x00, CHR ''A''] 0 =
     Inl (exception ''Not enough data left in unpack of varchar'') \<and>
   varchar_unpack (raw_type 4 False) little
     [CHR 0x05, CHR 0x00, CHR 0x00, CHR 0x00, CHR ''A''] 0 =
     Inr (\<lparr>storage = [CHR 0x05, CHR 0x00, CHR 0x00, CHR 0x00, CHR ''A''],
           begin_at = 4, end_at = 14\<rparr>, 9)"
  by code_simp

text \<open>
  C3 (trailing bytes). The claim: for every format, a buffer that goes on after the bytes
  the fields consume is unpacked from its prefix and the rest is ignored. With the format
  \<open>varchar<>\<close> the four bytes \<open>00 00 00 00\<close> unpack to the empty string, and the same
  bytes followed by one more byte make \<open>unpack\<close> throw.
\<close>

theorem trailing_byte_after_varchar_throws:
  "unpack [varchar (raw_type 4 False) little] [CHR 0x00, CHR 0x00, CHR 0x00, CHR 0x00] =
     Inr [StrV []] \<and>
   unpack [varchar (raw_type 4 False) little]
     [CHR 0x00, CHR 0x00, CHR 0x00, CHR 0x00, CHR ''A''] =
     Inl (exception ''Not enough data left in unpack of varchar'')"
  by code_simp

text \<open>
  C4 (underrun asymmetry). Unpacking the empty buffer with a format of one 4-byte
  \<open>integral\<close> (of either signedness and byte order) returns the value 0; unpacking it
  with a format of one \<open>fixed_string<4>\<close> throws the exception of
  \<open>fixed_string::unpack\<close>.
\<close>

theorem underrun_asymmetry:
  "unpack [integral (raw_type 4 sg) order] [] = Inr [IntV 0] \<and>
   unpack [fixed_string 4] [] =
     Inl (exception ''Not enough data left in buffer to unpack fixed_string'')"
  by (simp add: unpack_def integral_unpack_def integral_decode_null fixed_string_unpack_def)

text \<open>
  C5 (endianness). Packing the 16-bit value \<open>0x0102\<close> gives the bytes \<open>02 01\<close> in
  little-endian (and native) order and \<open>01 02\<close> in big-endian order.
\<close>

theorem endianness_16bit:
  "pack [integral (raw_type 2 sg) little] [IntV 0x0102] = Inr [CHR 0x02, CHR 0x01] \<and>
   pack [integral (raw_type 2 sg) native] [IntV 0x0102] = Inr [CHR 0x02, CHR 0x01] \<and>
   pack [integral (raw_type 2 sg) big] [IntV 0x0102] = Inr [CHR 0x01, CHR 0x02]"
  by (cases sg)
     (simp_all add: pack_def native_def integral_pack_def byte_copy_eq object_bytes_def
        to_raw_def numeral_2_eq_2 char_of_def)

text \<open>
  C6 (\<open>fixed_string\<close> pack). For \<open>fixed_string<n>\<close>, \<open>pack\<close> throws the length
  exception for every string whose size differs from \<open>n\<close>, whatever follows in the
  format, and for a string of size \<open>n\<close> it emits the string itself, with no length
  prefix, followed by the encoding of the followers.
\<close>

theorem fixed_string_pack:
  "(length s \<noteq> n \<longrightarrow>
      follow_up_pack (fixed_string n # followers) (StrV s # arguments) =
        Inl (exception (''Packed string should be of length '' @ to_string n)) \<and>
      pack [fixed_string n] [StrV s] =
        Inl (exception (''Packed string should be of length '' @ to_string n))) \<and>
   (length s = n \<longrightarrow>
      follow_up_pack (fixed_string n # followers) (StrV s # arguments) =
        (case follow_up_pack followers arguments of
           Inl e \<Rightarrow> Inl e
         | Inr rest \<Rightarrow> Inr (s @ rest)) \<and>
      pack [fixed_string n] [StrV s] = Inr s)"
  by (simp add: pack_def)

theorem fixed_string_pack_witness:
  "length ''abc'' \<noteq> (5::nat) \<and>
   pack [fixed_string 5] [StrV ''abc''] =
     Inl (exception ''Packed string should be of length 5'') \<and>
   length ''abc'' = (3::nat) \<and>
   pack [fixed_string 3] [StrV ''abc''] = Inr ''abc''"
proof -
  have five: "to_string 5 = ''5''"
    by code_simp
  show ?thesis
    using fixed_string_pack [of "''abc''" 5 "[]" "[]"]
      fixed_string_pack [of "''abc''" 3 "[]" "[]"]
    by (simp add: five)
qed

text \<open>
  C7 (multi-field ordering). For the format \<open>integral<4 bytes, little>, fixed_string<3>\<close>,
  packing \<open>(1, "abc")\<close> gives the bytes \<open>01 00 00 00 61 62 63\<close>, and unpacking these
  bytes gives \<open>(1, "abc")\<close>, in that order.
\<close>

theorem multi_field_ordering:
  "pack [integral (raw_type 4 sg) little, fixed_string 3] [IntV 0x00000001, StrV ''abc''] =
     Inr [CHR 0x01, CHR 0x00, CHR 0x00, CHR 0x00, CHR 0x61, CHR 0x62, CHR 0x63] \<and>
   unpack [integral (raw_type 4 sg) little, fixed_string 3]
     [CHR 0x01, CHR 0x00, CHR 0x00, CHR 0x00, CHR 0x61, CHR 0x62, CHR 0x63] =
     Inr [IntV 1, StrV ''abc'']"
  by (cases sg)
     (simp_all add: pack_def unpack_def integral_pack_def byte_copy_eq object_bytes_def
        to_raw_def integral_unpack_def fixed_string_unpack_def integral_decode_def
        stringer_decode_def piece_bytes_def object_value_def eval_nat_numeral char_of_def)

text \<open>
  C8 (integral underrun leaves the cursor). When fewer than \<open>sizeof(raw_type)\<close> bytes
  remain at \<open>current\<close>, \<open>integral::unpack\<close> returns the shared \<open>null_decoder\<close>, which
  decodes to 0, and does not move \<open>current\<close>: the rest of the format is unpacked from
  the same position.
\<close>

theorem integral_underrun_keeps_cursor:
  "int (length packed) - current < int (sizeof rt) \<Longrightarrow>
     integral_unpack rt packed current = (null_decoder rt, current) \<and>
     integral_decode rt order (null_decoder rt) = Inr 0 \<and>
     follow_up_unpack (integral rt order # tail_types) packed current =
       (case follow_up_unpack tail_types packed current of
          Inl e \<Rightarrow> Inl e
        | Inr plan \<Rightarrow> Inr (integral_decoder rt order (null_decoder rt) # plan))"
  by (simp add: integral_unpack_def integral_decode_null)

theorem integral_underrun_keeps_cursor_witness:
  "int (length ''ab'') - 0 < int (sizeof (raw_type 4 False)) \<and>
   follow_up_unpack [integral (raw_type 4 False) big, fixed_string 2] ''ab'' 0 =
     Inr [integral_decoder (raw_type 4 False) big (null_decoder (raw_type 4 False)),
          stringer_decoder \<lparr>storage = ''ab'', begin_at = 0, end_at = 2\<rparr>] \<and>
   unpack [integral (raw_type 4 False) big, fixed_string 2] ''ab'' = Inr [IntV 0, StrV ''ab'']"
  using integral_underrun_keeps_cursor
    [of "''ab''" 0 "raw_type 4 False" big "[fixed_string 2]"]
  by (simp add: unpack_def fixed_string_unpack_def stringer_decode_def piece_bytes_def)

text \<open>
  C9 (\<open>varchar\<close> at the end of the buffer). With no byte left at \<open>current\<close>,
  \<open>varchar::unpack\<close> does not throw: the length encoder finds no prefix and returns its
  \<open>null_decoder\<close>, the length decodes to 0, the test passes, and the decoder is the
  empty range at the end of the buffer, which decodes to the empty string. In particular
  a format of one \<open>varchar\<close> unpacks the empty buffer to the empty string.
\<close>

theorem varchar_unpack_at_end:
  "(0 < sizeof rt \<longrightarrow>
      integral_unpack rt packed (int (length packed)) = (null_decoder rt, int (length packed))) \<and>
   integral_decode rt order (null_decoder rt) = Inr 0 \<and>
   varchar_unpack rt order packed (int (length packed)) =
     Inr (\<lparr>storage = packed, begin_at = int (length packed), end_at = int (length packed)\<rparr>,
          int (length packed)) \<and>
   stringer_decode
     \<lparr>storage = packed, begin_at = int (length packed), end_at = int (length packed)\<rparr> =
     Inr [] \<and>
   unpack [varchar rt order] [] = Inr [StrV []]"
proof -
  obtain p where p: "integral_unpack rt packed (int (length packed)) = (p, int (length packed))"
      "integral_decode rt order p = Inr 0"
    using integral_unpack_at_end by blast
  have v: "varchar_unpack rt order packed (int (length packed)) =
     Inr (\<lparr>storage = packed, begin_at = int (length packed), end_at = int (length packed)\<rparr>,
          int (length packed))"
    by (simp add: varchar_unpack_def p to_size_t_zero to_ptrdiff_t_zero to_unsigned_zero Let_def)
  have d: "stringer_decode
     \<lparr>storage = packed, begin_at = int (length packed), end_at = int (length packed)\<rparr> = Inr []"
    by (simp add: stringer_decode_def piece_bytes_def)
  obtain q where q: "integral_unpack rt [] 0 = (q, 0)" "integral_decode rt order q = Inr 0"
    using integral_unpack_at_end [of rt "[]" order] by auto
  have "varchar_unpack rt order [] 0 = Inr (\<lparr>storage = [], begin_at = 0, end_at = 0\<rparr>, 0)"
    by (simp add: varchar_unpack_def q to_size_t_zero to_ptrdiff_t_zero to_unsigned_zero Let_def)
  then have u: "unpack [varchar rt order] [] = Inr [StrV []]"
    by (simp add: unpack_def stringer_decode_def piece_bytes_def)
  have n: "0 < sizeof rt \<longrightarrow>
      integral_unpack rt packed (int (length packed)) = (null_decoder rt, int (length packed))"
    by (simp add: integral_unpack_def)
  show ?thesis
    using n v d u by (simp add: integral_decode_null)
qed

theorem varchar_unpack_at_end_witness:
  "0 < sizeof (raw_type 4 False) \<and>
   integral_unpack (raw_type 4 False) ''ab'' 2 = (null_decoder (raw_type 4 False), 2) \<and>
   varchar_unpack (raw_type 4 False) little ''ab'' 2 =
     Inr (\<lparr>storage = ''ab'', begin_at = 2, end_at = 2\<rparr>, 2) \<and>
   unpack [fixed_string 2, varchar (raw_type 4 False) little] ''ab'' =
     Inr [StrV ''ab'', StrV []]"
  using varchar_unpack_at_end [of "raw_type 4 False" "''ab''" little]
  by (simp add: unpack_def fixed_string_unpack_def stringer_decode_def piece_bytes_def)

text \<open>
  C10 (length prefix of \<open>varchar\<close> wraps). \<open>varchar::chain::pack\<close> passes
  \<open>value.size()\<close> to the length encoder, which takes it as a \<open>raw_type\<close>: the prefix
  is the encoding of the size modulo \<open>2 ^ (8 * sizeof(raw_type))\<close>, and, for an unsigned
  \<open>raw_type\<close>, reading the prefix back gives the size modulo that power of two.
\<close>

theorem varchar_length_prefix_wraps:
  "follow_up_pack (varchar rt order # followers) (StrV s # arguments) =
     (case follow_up_pack followers arguments of
        Inl e \<Rightarrow> Inl e
      | Inr rest \<Rightarrow>
          Inr (integral_pack rt order (int (length s) mod 2 ^ (8 * sizeof rt)) @ s @ rest)) \<and>
   pack [varchar rt order] [StrV s] =
     Inr (integral_pack rt order (int (length s) mod 2 ^ (8 * sizeof rt)) @ s) \<and>
   integral_decode (raw_type w False) order
     \<lparr>storage = integral_pack (raw_type w False) order (int (length s)), begin_at = 0,
      end_at = int w\<rparr> = Inr (int (length s) mod 2 ^ (8 * w))"
proof -
  have wrap: "integral_pack rt order (int (length s) mod 2 ^ (8 * sizeof rt)) =
      integral_pack rt order (int (length s))"
    by (simp add: integral_pack_def to_raw_cong)
  have chain: "follow_up_pack (varchar rt order # followers) (StrV s # arguments) =
     (case follow_up_pack followers arguments of
        Inl e \<Rightarrow> Inl e
      | Inr rest \<Rightarrow>
          Inr (integral_pack rt order (int (length s) mod 2 ^ (8 * sizeof rt)) @ s @ rest))"
    by (simp add: wrap split: sum.split)
  have single: "pack [varchar rt order] [StrV s] =
     Inr (integral_pack rt order (int (length s) mod 2 ^ (8 * sizeof rt)) @ s)"
    by (simp add: pack_def wrap)
  have "integral_decode (raw_type w False) order
     \<lparr>storage = integral_pack (raw_type w False) order (int (length s)), begin_at = 0,
      end_at = int (length (integral_pack (raw_type w False) order (int (length s))))\<rparr> =
     Inr (to_raw (raw_type w False) (int (length s)))"
    by (rule integral_decode_pack)
  then have reread: "integral_decode (raw_type w False) order
     \<lparr>storage = integral_pack (raw_type w False) order (int (length s)), begin_at = 0,
      end_at = int w\<rparr> = Inr (int (length s) mod 2 ^ (8 * w))"
    by (simp add: length_integral_pack to_raw_unsigned)
  show ?thesis
    using chain single reread by simp
qed

theorem varchar_length_prefix_wraps_witness:
  "pack [varchar (raw_type 1 False) little] [StrV (replicate 258 (CHR ''x''))] =
     Inr (CHR 0x02 # replicate 258 (CHR ''x''))"
proof -
  have "integral_pack (raw_type 1 False) little (int (length (replicate 258 (CHR ''x''))) mod 2 ^ (8 * sizeof (raw_type 1 False))) = [CHR 0x02]"
    by (simp add: integral_pack_def byte_copy_eq object_bytes_def to_raw_def char_of_def)
  then show ?thesis
    using varchar_length_prefix_wraps [of "raw_type 1 False" little "[]" "replicate 258 (CHR ''x'')" "[]"]
    by simp
qed

end
